theory Spec2Isabelle
  imports Main
begin

section \<open>Incident response tracker: the record store and its operations\<close>

text \<open>
  A shallow embedding of \<^verbatim>\<open>incident_tracker.py\<close>. Every command of the tool loads the
  whole store from one JSON file, works on it in memory and, when it succeeds, writes the
  whole store back. The file is therefore the only state, and each command is modelled as
  a function from the file's state (and the command's arguments) to an outcome and the
  file's new state.

  Strings are \<^typ>\<open>string\<close>, the bytes of the text. The two values the code draws from its environment, the
  text of \<^verbatim>\<open>uuid.uuid4()\<close> and of \<^verbatim>\<open>datetime.utcnow().isoformat()\<close>, are
  arguments of the commands that use them.
\<close>

subsection \<open>Controlled vocabularies\<close>

definition NIST_PHASES :: "string list" where
  "NIST_PHASES = [''identify'', ''protect'', ''detect'', ''respond'', ''recover'']"

definition STATUSES :: "string list" where
  "STATUSES = [''open'', ''in_progress'', ''contained'', ''eradicated'', ''recovered'', ''closed'']"

definition SEVERITIES :: "string list" where
  "SEVERITIES = [''low'', ''medium'', ''high'', ''critical'']"

subsection \<open>The string operations of Python the code uses\<close>

text \<open>
  A string is the list of the bytes of its UTF-8 text, so a character outside ASCII is a
  run of bytes from 128 up.

  \<^verbatim>\<open>str.lower()\<close> follows the Unicode case tables, which are no part of this
  program. On text that is all ASCII they say: the characters \<^verbatim>\<open>A\<close> to \<^verbatim>\<open>Z\<close>
  (codes 65 to 90) move to \<^verbatim>\<open>a\<close> to \<^verbatim>\<open>z\<close>, every other character stays; this
  is \<open>ascii_lower\<close>. What they say on any other text is the argument \<open>ul\<close> of
  \<open>lower\<close>, a function on whole strings, since Unicode lower-casing can depend on the
  neighbours of a character. Every function below that lower-cases takes \<open>ul\<close> as its
  first argument, and what is proved of it holds for every \<open>ul\<close>, so for Python's.
\<close>

definition is_ascii :: "string \<Rightarrow> bool" where
  "is_ascii s = list_all (\<lambda>c. (of_char c :: nat) < 128) s"

definition ascii_lower_char :: "char \<Rightarrow> char" where
  "ascii_lower_char c =
     (let n = (of_char c :: nat) in if 65 \<le> n \<and> n \<le> 90 then char_of (n + 32) else c)"

definition ascii_lower :: "string \<Rightarrow> string" where
  "ascii_lower s = map ascii_lower_char s"

definition lower :: "(string \<Rightarrow> string) \<Rightarrow> string \<Rightarrow> string" where
  "lower ul s = (if is_ascii s then ascii_lower s else ul s)"

text \<open>
  The characters of a string, for \<^verbatim>\<open>len\<close> and for iterating over it: each is a
  byte that is no continuation byte (128 to 191) together with the continuation bytes
  that follow it.
\<close>

definition is_continuation :: "char \<Rightarrow> bool" where
  "is_continuation c = (128 \<le> (of_char c :: nat) \<and> (of_char c :: nat) < 192)"

function utf8_chars :: "string \<Rightarrow> string list" where
  "utf8_chars [] = []"
| "utf8_chars (c # cs) =
     (c # takeWhile is_continuation cs) # utf8_chars (dropWhile is_continuation cs)"
  by pat_completeness auto
termination
  by (relation "measure length") (auto simp: length_dropWhile_le less_Suc_eq_le)

text \<open>\<^verbatim>\<open>sep.join(xs)\<close>.\<close>

fun join :: "string \<Rightarrow> string list \<Rightarrow> string" where
  "join sep [] = []"
| "join sep [x] = x"
| "join sep (x # y # ys) = x @ sep @ join sep (y # ys)"

text \<open>
  An optional command-line argument is \<^verbatim>\<open>None\<close> or a string, and an optional key of
  a record is absent or holds a string. \<open>truthy\<close> is Python's truth value of such a
  value (\<^verbatim>\<open>if args.status:\<close>): present and not empty. \<open>or_empty\<close> is the
  string it stands for where the code reads it with an empty default
  (\<^verbatim>\<open>args.owner or ""\<close>, \<^verbatim>\<open>inc.get("owner", "")\<close>).
\<close>

definition truthy :: "string option \<Rightarrow> bool" where
  "truthy v = (case v of None \<Rightarrow> False | Some s \<Rightarrow> s \<noteq> [])"

definition or_empty :: "string option \<Rightarrow> string" where
  "or_empty v = (case v of None \<Rightarrow> [] | Some s \<Rightarrow> s)"

subsection \<open>Incident records\<close>

text \<open>
  The code keeps an incident as a dictionary. The keys it reads by subscript
  (\<^verbatim>\<open>inc["id"]\<close>, \<^verbatim>\<open>inc["severity"]\<close>, ...) are fields that every record has; the
  keys it reads with \<^verbatim>\<open>inc.get\<close> (\<^verbatim>\<open>owner\<close>, \<^verbatim>\<open>notes\<close>) and the key it adds
  on the first update (\<^verbatim>\<open>updated_at\<close>) are optional fields. The field \<open>inc_id\<close> is
  the key \<^verbatim>\<open>id\<close> and \<open>inc_notes\<close> the key \<^verbatim>\<open>notes\<close>.
\<close>

record incident =
  inc_id :: string
  title :: string
  category :: string
  severity :: string
  phase :: string
  status :: string
  reported_at :: string
  updated_at :: "string option"
  owner :: "string option"
  inc_notes :: "string option"

subsection \<open>The persisted file\<close>

text \<open>
  A value that \<^verbatim>\<open>json.load\<close> can return. An array holds incident records; the other
  shapes are kept because nothing in the code stops the file from holding them.
  Numbers are represented by integers: the code only ever tests a number for zero.
\<close>

datatype json =
    JNull
  | JBool bool
  | JNum int
  | JStr string
  | JObj "(string \<times> json) list"
  | JArr "incident list"

text \<open>
  The exceptions other than \<^verbatim>\<open>JSONDecodeError\<close> that reading a file's content can
  raise: bytes that are not UTF-8 (\<^verbatim>\<open>UnicodeDecodeError\<close>), nesting beyond the
  recursion limit (\<^verbatim>\<open>RecursionError\<close>), an integer literal beyond the digit limit
  (\<^verbatim>\<open>ValueError\<close>).
\<close>

datatype load_exception = UnicodeDecodeError | RecursionError | ValueError

text \<open>
  The state of a file as \<^verbatim>\<open>_load\<close> meets it: it does not exist
  (\<^verbatim>\<open>os.path.exists\<close> is false), its text is not JSON (\<^verbatim>\<open>json.load\<close> raises
  \<^verbatim>\<open>JSONDecodeError\<close>), reading it raises another exception, or it decodes to a
  value. A file that exists can be opened and written: access rights are not modelled.
\<close>

datatype file_state = Missing | NotJSON | Unloadable load_exception | Parsed json

text \<open>
  \<^verbatim>\<open>_load\<close> catches \<^verbatim>\<open>JSONDecodeError\<close> and nothing else: the other exceptions
  leave it uncaught (\<open>Inl\<close>).
\<close>

definition load :: "file_state \<Rightarrow> load_exception + json" where
  "load f =
     (case f of
        Missing \<Rightarrow> Inr (JArr [])
      | NotJSON \<Rightarrow> Inr (JArr [])
      | Unloadable e \<Rightarrow> Inl e
      | Parsed v \<Rightarrow> Inr v)"

text \<open>\<^verbatim>\<open>_save\<close> overwrites the file with the text of the value, which decodes to it again.\<close>

definition save :: "json \<Rightarrow> file_state" where
  "save v = Parsed v"

subsection \<open>Outcomes\<close>

text \<open>
  How a command can end other than by success. \<open>ValidationError m\<close> is
  \<^verbatim>\<open>sys.exit(m)\<close>; \<open>NotFoundError m\<close> is the message \<open>m\<close> printed before a return that
  saves nothing; the others are the Python exceptions of the same names, which the code
  does not catch, \<open>Uncaught e\<close> being an exception \<open>e\<close> that came out of reading a file.
\<close>

datatype error =
    ValidationError string
  | NotFoundError string
  | AttributeError
  | TypeError
  | JSONDecodeError
  | Uncaught load_exception

text \<open>
  The messages: \<^verbatim>\<open>f"Invalid severity. Use one of: {', '.join(SEVERITIES)}"\<close> in
  \<^verbatim>\<open>add_incident\<close>, \<^verbatim>\<open>f"Invalid status. Use: {', '.join(STATUSES)}"\<close> in
  \<^verbatim>\<open>update_incident\<close>, and \<^verbatim>\<open>f"No incident with id {args.id} found."\<close>.
\<close>

definition add_invalid :: "string \<Rightarrow> string list \<Rightarrow> string" where
  "add_invalid field allowed = ''Invalid '' @ field @ ''. Use one of: '' @ join '', '' allowed"

definition update_invalid :: "string \<Rightarrow> string list \<Rightarrow> string" where
  "update_invalid field allowed = ''Invalid '' @ field @ ''. Use: '' @ join '', '' allowed"

definition no_incident :: "string \<Rightarrow> string" where
  "no_incident x = ''No incident with id '' @ x @ '' found.''"

text \<open>
  What a \<^verbatim>\<open>for inc in data\<close> loop runs over: the records of an array, the characters
  of a string or the keys of an object (strings in both cases), or nothing at all, since
  \<^verbatim>\<open>None\<close>, a boolean and a number cannot be iterated.
\<close>

datatype iteration = Incidents "incident list" | Strs "string list" | NotIterable

definition py_iter :: "json \<Rightarrow> iteration" where
  "py_iter v =
     (case v of
        JArr xs \<Rightarrow> Incidents xs
      | JStr s \<Rightarrow> Strs (utf8_chars s)
      | JObj kvs \<Rightarrow> Strs (map fst kvs)
      | _ \<Rightarrow> NotIterable)"

text \<open>Python's truth value of a decoded value (\<^verbatim>\<open>if not data:\<close>).\<close>

definition json_truthy :: "json \<Rightarrow> bool" where
  "json_truthy v =
     (case v of
        JNull \<Rightarrow> False
      | JBool b \<Rightarrow> b
      | JNum n \<Rightarrow> n \<noteq> 0
      | JStr s \<Rightarrow> s \<noteq> []
      | JObj kvs \<Rightarrow> kvs \<noteq> []
      | JArr xs \<Rightarrow> xs \<noteq> [])"

subsection \<open>Initialising and seeding the store\<close>

datatype init_result = AlreadyExists | Initialized

definition init_store :: "file_state \<Rightarrow> bool \<Rightarrow> init_result \<times> file_state" where
  "init_store f force =
     (if f \<noteq> Missing \<and> \<not> force then (AlreadyExists, f)
      else (Initialized, save (JArr [])))"

text \<open>
  \<^verbatim>\<open>seed\<close> replaces the store by whatever the sample file decodes to, and only then
  takes its length for the message: the store is already written when \<^verbatim>\<open>len\<close>
  fails. A sample that is not JSON, or that cannot be read, raises before anything is
  written: \<^verbatim>\<open>seed\<close> reads the sample without a handler.
\<close>

datatype seed_result = SampleNotFound | Seeded nat

definition py_len :: "json \<Rightarrow> nat option" where
  "py_len v =
     (case v of
        JArr xs \<Rightarrow> Some (length xs)
      | JStr s \<Rightarrow> Some (length (utf8_chars s))
      | JObj kvs \<Rightarrow> Some (length kvs)
      | _ \<Rightarrow> None)"

definition seed :: "file_state \<Rightarrow> file_state \<Rightarrow> (error + seed_result) \<times> file_state" where
  "seed sample f =
     (case sample of
        Missing \<Rightarrow> (Inr SampleNotFound, f)
      | NotJSON \<Rightarrow> (Inl JSONDecodeError, f)
      | Unloadable e \<Rightarrow> (Inl (Uncaught e), f)
      | Parsed v \<Rightarrow>
          (case py_len v of
             None \<Rightarrow> (Inl TypeError, save v)
           | Some n \<Rightarrow> (Inr (Seeded n), save v)))"

subsection \<open>Adding an incident\<close>

record add_args =
  a_title :: string
  a_category :: string
  a_severity :: string
  a_phase :: string
  a_owner :: "string option"
  a_notes :: "string option"

text \<open>The record \<^verbatim>\<open>add_incident\<close> builds before it validates anything.\<close>

definition new_incident ::
  "(string \<Rightarrow> string) \<Rightarrow> add_args \<Rightarrow> string \<Rightarrow> string \<Rightarrow> incident" where
  "new_incident ul a uuid now =
     \<lparr> inc_id = take 8 uuid,
       title = a_title a,
       category = lower ul (a_category a),
       severity = lower ul (a_severity a),
       phase = lower ul (a_phase a),
       status = ''open'',
       reported_at = now @ ''Z'',
       updated_at = None,
       owner = Some (or_empty (a_owner a)),
       inc_notes = Some (or_empty (a_notes a)) \<rparr>"

text \<open>
  \<^verbatim>\<open>_load()\<close> is the first statement, so an exception it lets through ends the
  command before anything is validated.
\<close>

definition add_incident ::
  "(string \<Rightarrow> string) \<Rightarrow> file_state \<Rightarrow> add_args \<Rightarrow> string \<Rightarrow> string \<Rightarrow>
     (error + incident) \<times> file_state" where
  "add_incident ul f a uuid now =
     (case load f of
        Inl e \<Rightarrow> (Inl (Uncaught e), f)
      | Inr data \<Rightarrow>
          (let inc = new_incident ul a uuid now
           in if severity inc \<notin> set SEVERITIES then
                (Inl (ValidationError (add_invalid ''severity'' SEVERITIES)), f)
              else if phase inc \<notin> set NIST_PHASES then
                (Inl (ValidationError (add_invalid ''phase'' NIST_PHASES)), f)
              else (case data of
                      JArr xs \<Rightarrow> (Inr inc, save (JArr (xs @ [inc])))
                    | _ \<Rightarrow> (Inl AttributeError, f))))"

subsection \<open>Listing incidents\<close>

record list_args =
  l_severity :: "string option"
  l_phase :: "string option"
  l_status :: "string option"
  l_owner :: "string option"

text \<open>
  One test of the loop of \<^verbatim>\<open>list_incidents\<close>,
  \<^verbatim>\<open>args.severity and inc["severity"] != args.severity.lower()\<close>: the argument is
  present, not empty, and its lower-cased text differs from the value \<open>v\<close>.
\<close>

definition mismatch :: "(string \<Rightarrow> string) \<Rightarrow> string option \<Rightarrow> string \<Rightarrow> bool" where
  "mismatch ul arg v = (truthy arg \<and> v \<noteq> lower ul (or_empty arg))"

text \<open>
  The loop body: \<open>True\<close> when the record reaches \<^verbatim>\<open>filtered.append(inc)\<close>, \<open>False\<close>
  when one of the four tests runs into \<^verbatim>\<open>continue\<close>.
\<close>

definition keeps :: "(string \<Rightarrow> string) \<Rightarrow> list_args \<Rightarrow> incident \<Rightarrow> bool" where
  "keeps ul a inc =
     (if mismatch ul (l_severity a) (severity inc) then False
      else if mismatch ul (l_phase a) (phase inc) then False
      else if mismatch ul (l_status a) (status inc) then False
      else if mismatch ul (l_owner a) (lower ul (or_empty (owner inc))) then False
      else True)"

fun filter_loop ::
  "(string \<Rightarrow> string) \<Rightarrow> list_args \<Rightarrow> incident list \<Rightarrow> incident list \<Rightarrow> incident list" where
  "filter_loop ul a filtered [] = filtered"
| "filter_loop ul a filtered (inc # rest) =
     (if keeps ul a inc then filter_loop ul a (filtered @ [inc]) rest
      else filter_loop ul a filtered rest)"

text \<open>
  What the command prints: the message that nothing was found, or one row for each record
  of \<open>filtered\<close>, in order. The text of a row is not modelled; a row is the record it shows.
\<close>

datatype listing = NoIncidentsFound | Rows "incident list"

text \<open>
  On a file that holds a string or an object the loop runs over strings: the first test
  that is switched on subscripts a string with a string (\<^verbatim>\<open>TypeError\<close>), the owner
  test alone calls \<^verbatim>\<open>.get\<close> on it (\<^verbatim>\<open>AttributeError\<close>), and with no test at all
  the rows fail to print (\<^verbatim>\<open>inc['id']\<close>, \<^verbatim>\<open>TypeError\<close>).
\<close>

definition list_incidents ::
  "(string \<Rightarrow> string) \<Rightarrow> file_state \<Rightarrow> list_args \<Rightarrow> error + listing" where
  "list_incidents ul f a =
     (case load f of
        Inl e \<Rightarrow> Inl (Uncaught e)
      | Inr v \<Rightarrow>
          (case py_iter v of
             NotIterable \<Rightarrow> Inl TypeError
           | Strs ss \<Rightarrow>
               (if ss = [] then Inr NoIncidentsFound
                else if truthy (l_severity a) \<or> truthy (l_phase a) \<or> truthy (l_status a)
                  then Inl TypeError
                else if truthy (l_owner a) then Inl AttributeError
                else Inl TypeError)
           | Incidents data \<Rightarrow>
               (let filtered = filter_loop ul a [] data
                in if filtered = [] then Inr NoIncidentsFound else Inr (Rows filtered))))"

subsection \<open>Updating an incident\<close>

record update_args =
  u_id :: string
  u_status :: "string option"
  u_phase :: "string option"
  u_owner :: "string option"
  u_notes :: "string option"

text \<open>
  The body of the loop for the record whose id matches, up to the time stamp. Each
  assignment of the code yields the next version of the record; \<^verbatim>\<open>sys.exit\<close> ends
  the command with the versions made so far thrown away.
\<close>

definition update_record ::
  "(string \<Rightarrow> string) \<Rightarrow> update_args \<Rightarrow> string \<Rightarrow> incident \<Rightarrow> error + incident" where
  "update_record ul a now inc =
     (if truthy (u_status a) \<and> lower ul (or_empty (u_status a)) \<notin> set STATUSES then
        Inl (ValidationError (update_invalid ''status'' STATUSES))
      else
        let inc1 = (if truthy (u_status a)
                    then inc\<lparr>status := lower ul (or_empty (u_status a))\<rparr> else inc)
        in if truthy (u_phase a) \<and> lower ul (or_empty (u_phase a)) \<notin> set NIST_PHASES then
             Inl (ValidationError (update_invalid ''phase'' NIST_PHASES))
           else
             let inc2 = (if truthy (u_phase a)
                         then inc1\<lparr>phase := lower ul (or_empty (u_phase a))\<rparr> else inc1);
                 inc3 = (case u_owner a of None \<Rightarrow> inc2 | Some ow \<Rightarrow> inc2\<lparr>owner := Some ow\<rparr>);
                 inc4 = (if truthy (u_notes a)
                         then inc3\<lparr>inc_notes :=
                                Some ((if truthy (inc_notes inc3)
                                       then or_empty (inc_notes inc3) @ [CHR 0x0A] else [])
                                      @ or_empty (u_notes a))\<rparr>
                         else inc3)
             in Inr (inc4\<lparr>updated_at := Some (now @ ''Z'')\<rparr>))"

text \<open>
  The loop over the store: the first record with the id is updated and the loop ends
  there; the result is the store to save. When no record has the id, the message after
  the loop is printed.
\<close>

fun update_loop ::
  "(string \<Rightarrow> string) \<Rightarrow> update_args \<Rightarrow> string \<Rightarrow> incident list \<Rightarrow> error + incident list" where
  "update_loop ul a now [] = Inl (NotFoundError (no_incident (u_id a)))"
| "update_loop ul a now (inc # rest) =
     (if inc_id inc = u_id a then
        (case update_record ul a now inc of
           Inl e \<Rightarrow> Inl e
         | Inr inc' \<Rightarrow> Inr (inc' # rest))
      else
        (case update_loop ul a now rest of
           Inl e \<Rightarrow> Inl e
         | Inr rest' \<Rightarrow> Inr (inc # rest')))"

text \<open>
  The command returns the id it reports as updated. Over a string or an object the first
  turn of the loop subscripts a string with \<^verbatim>\<open>"id"\<close>, a \<^verbatim>\<open>TypeError\<close>.
\<close>

definition update_incident ::
  "(string \<Rightarrow> string) \<Rightarrow> file_state \<Rightarrow> update_args \<Rightarrow> string \<Rightarrow>
     (error + string) \<times> file_state" where
  "update_incident ul f a now =
     (case load f of
        Inl e \<Rightarrow> (Inl (Uncaught e), f)
      | Inr v \<Rightarrow>
          (case py_iter v of
             NotIterable \<Rightarrow> (Inl TypeError, f)
           | Strs ss \<Rightarrow>
               (if ss = [] then (Inl (NotFoundError (no_incident (u_id a))), f)
                else (Inl TypeError, f))
           | Incidents data \<Rightarrow>
               (case update_loop ul a now data of
                  Inl e \<Rightarrow> (Inl e, f)
                | Inr data' \<Rightarrow> (Inr (u_id a), save (JArr data')))))"

subsection \<open>Statistics\<close>

text \<open>
  \<^verbatim>\<open>collections.Counter\<close> over a list of strings: an association list in the order
  in which the keys were first seen, which is the order \<^verbatim>\<open>items()\<close> yields.
\<close>

fun count_key :: "string \<Rightarrow> (string \<times> nat) list \<Rightarrow> (string \<times> nat) list" where
  "count_key k [] = [(k, 1)]"
| "count_key k ((k', n) # kvs) =
     (if k = k' then (k', n + 1) # kvs else (k', n) # count_key k kvs)"

definition Counter :: "string list \<Rightarrow> (string \<times> nat) list" where
  "Counter xs = foldl (\<lambda>c k. count_key k c) [] xs"

datatype stats_result =
    NoIncidentsYet
  | Counts "(string \<times> nat) list" "(string \<times> nat) list" "(string \<times> nat) list"

definition stats :: "file_state \<Rightarrow> error + stats_result" where
  "stats f =
     (case load f of
        Inl e \<Rightarrow> Inl (Uncaught e)
      | Inr data \<Rightarrow>
          (if \<not> json_truthy data then Inr NoIncidentsYet
           else (case data of
                   JArr xs \<Rightarrow>
                     Inr (Counts (Counter (map severity xs))
                                 (Counter (map phase xs))
                                 (Counter (map status xs)))
                 | _ \<Rightarrow> Inl TypeError)))"

subsection \<open>Notions of the specification\<close>

text \<open>
  The ids of the records a file holds, in store order, and the uniqueness the
  specification asks of them.
\<close>

definition store_ids :: "file_state \<Rightarrow> string list" where
  "store_ids f = (case load f of Inr (JArr xs) \<Rightarrow> map inc_id xs | _ \<Rightarrow> [])"

definition ids_unique :: "file_state \<Rightarrow> bool" where
  "ids_unique f = distinct (store_ids f)"

text \<open>
  The specification calls persisted content malformed when it "fails to parse as the
  expected structure" of a sequence of records.
\<close>

definition spec_malformed :: "file_state \<Rightarrow> bool" where
  "spec_malformed f =
     (case f of
        Missing \<Rightarrow> False
      | NotJSON \<Rightarrow> True
      | Unloadable e \<Rightarrow> True
      | Parsed v \<Rightarrow> (case v of JArr xs \<Rightarrow> False | _ \<Rightarrow> True))"

text \<open>
  The specification's filter: a record passes when every supplied predicate equals the
  record's field up to case, the owner of a record without one being the empty string.
\<close>

definition spec_eq :: "(string \<Rightarrow> string) \<Rightarrow> string option \<Rightarrow> string \<Rightarrow> bool" where
  "spec_eq ul arg v = (case arg of None \<Rightarrow> True | Some s \<Rightarrow> lower ul v = lower ul s)"

definition spec_matches :: "(string \<Rightarrow> string) \<Rightarrow> list_args \<Rightarrow> incident \<Rightarrow> bool" where
  "spec_matches ul a inc =
     (spec_eq ul (l_severity a) (severity inc) \<and>
      spec_eq ul (l_phase a) (phase inc) \<and>
      spec_eq ul (l_status a) (status inc) \<and>
      spec_eq ul (l_owner a) (or_empty (owner inc)))"

text \<open>The four listings that apply one predicate of \<open>a\<close> each.\<close>

definition severity_only :: "list_args \<Rightarrow> list_args" where
  "severity_only a = \<lparr>l_severity = l_severity a, l_phase = None, l_status = None, l_owner = None\<rparr>"

definition phase_only :: "list_args \<Rightarrow> list_args" where
  "phase_only a = \<lparr>l_severity = None, l_phase = l_phase a, l_status = None, l_owner = None\<rparr>"

definition status_only :: "list_args \<Rightarrow> list_args" where
  "status_only a = \<lparr>l_severity = None, l_phase = None, l_status = l_status a, l_owner = None\<rparr>"

definition owner_only :: "list_args \<Rightarrow> list_args" where
  "owner_only a = \<lparr>l_severity = None, l_phase = None, l_status = None, l_owner = l_owner a\<rparr>"

text \<open>The call \<^verbatim>\<open>update(id, notes=n)\<close>: only the note is supplied.\<close>

definition notes_only :: "string \<Rightarrow> string \<Rightarrow> update_args" where
  "notes_only x n = \<lparr>u_id = x, u_status = None, u_phase = None, u_owner = None, u_notes = Some n\<rparr>"

text \<open>The first record of a store with a given id: the one \<^verbatim>\<open>update_incident\<close> picks.\<close>

definition first_with_id :: "string \<Rightarrow> incident list \<Rightarrow> incident option" where
  "first_with_id x data = find (\<lambda>inc. inc_id inc = x) data"

subsection \<open>Example data\<close>

text \<open>
  Two records, as the tool writes them, and the arguments of some calls. All the text in
  them is ASCII, so \<open>lower\<close> never reaches its first argument on it; the examples pass
  \<open>no_unicode\<close> there.
\<close>

definition no_unicode :: "string \<Rightarrow> string" where
  "no_unicode s = s"

definition phish :: incident where
  "phish = \<lparr> inc_id = ''3f2b8c1e'', title = ''Phish test'', category = ''phishing'',
             severity = ''low'', phase = ''detect'', status = ''open'',
             reported_at = ''2024-05-01T12:00:00Z'', updated_at = None,
             owner = Some [], inc_notes = Some [] \<rparr>"

definition malware :: incident where
  "malware = \<lparr> inc_id = ''a91d04f7'', title = ''Malware on host'', category = ''malware'',
               severity = ''high'', phase = ''respond'', status = ''contained'',
               reported_at = ''2024-05-02T08:30:00Z'', updated_at = Some ''2024-05-02T09:00:00Z'',
               owner = Some ''Bob'', inc_notes = Some ''isolated host'' \<rparr>"

definition two_incidents :: file_state where
  "two_incidents = Parsed (JArr [phish, malware])"

definition urgent_add :: add_args where
  "urgent_add = \<lparr> a_title = ''Odd login'', a_category = ''Access'', a_severity = ''Urgent'',
                  a_phase = ''detect'', a_owner = None, a_notes = None \<rparr>"

definition bad_phase_update :: update_args where
  "bad_phase_update = \<lparr> u_id = ''a91d04f7'', u_status = Some ''Closed'',
                        u_phase = Some ''cleanup'', u_owner = Some ''Eve'',
                        u_notes = Some ''done'' \<rparr>"

definition unknown_id_update :: update_args where
  "unknown_id_update = \<lparr> u_id = ''00000000'', u_status = Some ''closed'', u_phase = None,
                         u_owner = None, u_notes = None \<rparr>"

definition empty_status_update :: update_args where
  "empty_status_update = \<lparr> u_id = ''a91d04f7'', u_status = Some [], u_phase = None,
                           u_owner = None, u_notes = None \<rparr>"

definition empty_phase_update :: update_args where
  "empty_phase_update = \<lparr> u_id = ''a91d04f7'', u_status = Some ''closed'', u_phase = Some [],
                          u_owner = None, u_notes = None \<rparr>"

definition touch_update :: update_args where
  "touch_update = \<lparr> u_id = ''a91d04f7'', u_status = Some [], u_phase = None,
                    u_owner = None, u_notes = Some [] \<rparr>"

definition unowned_listing :: list_args where
  "unowned_listing = \<lparr> l_severity = None, l_phase = None, l_status = None, l_owner = Some [] \<rparr>"

definition high_listing :: list_args where
  "high_listing = \<lparr> l_severity = Some ''high'', l_phase = None, l_status = None, l_owner = None \<rparr>"

definition shouting :: incident where
  "shouting = malware\<lparr>severity := ''HIGH''\<rparr>"

definition bob_listing :: list_args where
  "bob_listing = \<lparr> l_severity = Some ''HIGH'', l_phase = None, l_status = Some ''Contained'', l_owner = Some ''BOB'' \<rparr>"

definition sample_add :: add_args where
  "sample_add = \<lparr> a_title = ''Odd login'', a_category = ''Access'', a_severity = ''High'',
                  a_phase = ''Detect'', a_owner = Some ''Ann'', a_notes = None \<rparr>"

definition fresh_uuid :: string where
  "fresh_uuid = ''0c1d2e3f-5a6b-4c7d-8e9f-001122334455''"

definition colliding_uuid :: string where
  "colliding_uuid = ''3f2b8c1e-9d4a-4b6c-8f00-aabbccddeeff''"

definition second_colliding_uuid :: string where
  "second_colliding_uuid = ''3f2b8c1e-1111-4222-8333-444455556666''"

definition second_add :: add_args where
  "second_add = \<lparr> a_title = ''Lost laptop'', a_category = ''data_loss'', a_severity = ''medium'',
                  a_phase = ''identify'', a_owner = None, a_notes = Some ''reported by user'' \<rparr>"

text \<open>
  A call of \<^verbatim>\<open>update\<close> passes validation when its status and its phase are each
  absent, empty, or in the vocabulary once lower-cased.
\<close>

definition fields_valid :: "(string \<Rightarrow> string) \<Rightarrow> update_args \<Rightarrow> bool" where
  "fields_valid ul a =
     ((\<not> truthy (u_status a) \<or> lower ul (or_empty (u_status a)) \<in> set STATUSES) \<and>
      (\<not> truthy (u_phase a) \<or> lower ul (or_empty (u_phase a)) \<in> set NIST_PHASES))"

section \<open>Properties\<close>

subsection \<open>Loading what was saved, and the update loop\<close>

lemma iter_array: "py_iter (JArr data) = Incidents data"
  by (simp add: py_iter_def)

lemma load_save: "load (save v) = Inr v"
  by (simp add: load_def save_def)

lemma update_loop_not_found:
  "\<forall>i \<in> set data. inc_id i \<noteq> u_id a \<Longrightarrow>
   update_loop ul a now data = Inl (NotFoundError (no_incident (u_id a)))"
  by (induction data) simp_all

lemma update_loop_first:
  "\<forall>i \<in> set pre. inc_id i \<noteq> u_id a \<Longrightarrow> inc_id inc = u_id a \<Longrightarrow>
   update_loop ul a now (pre @ inc # post) =
     (case update_record ul a now inc of Inl e \<Rightarrow> Inl e | Inr inc' \<Rightarrow> Inr (pre @ inc' # post))"
  by (induction pre) (simp_all split: sum.splits)

lemma first_split:
  assumes "x \<in> set (map inc_id data)"
  shows "\<exists>pre inc post.
           data = pre @ inc # post \<and> (\<forall>i \<in> set pre. inc_id i \<noteq> x) \<and> inc_id inc = x"
proof -
  from assms have "\<exists>i \<in> set data. inc_id i = x" by auto
  from split_list_first_prop[OF this] show ?thesis by blast
qed

lemma first_with_id_split:
  "\<forall>i \<in> set pre. inc_id i \<noteq> x \<Longrightarrow> inc_id inc = x \<Longrightarrow>
   first_with_id x (pre @ inc # post) = Some inc"
  unfolding first_with_id_def by (induction pre) simp_all

lemma update_record_invalid:
  assumes "(truthy (u_status a) \<and> lower ul (or_empty (u_status a)) \<notin> set STATUSES) \<or>
           (truthy (u_phase a) \<and> lower ul (or_empty (u_phase a)) \<notin> set NIST_PHASES)"
  shows "update_record ul a now inc =
           Inl (ValidationError
             (if truthy (u_status a) \<and> lower ul (or_empty (u_status a)) \<notin> set STATUSES
              then update_invalid ''status'' STATUSES
              else update_invalid ''phase'' NIST_PHASES))"
  using assms by (auto simp: update_record_def Let_def)

lemma update_record_nothing:
  assumes "\<not> truthy (u_status a)" "\<not> truthy (u_phase a)" "u_owner a = None"
    and "\<not> truthy (u_notes a)"
  shows "update_record ul a now inc = Inr (inc\<lparr>updated_at := Some (now @ ''Z'')\<rparr>)"
  using assms by (simp add: update_record_def Let_def)

subsection \<open>Rejected calls leave the store alone\<close>

text \<open>
  Claim C6. When the severity given to \<^verbatim>\<open>add\<close> is, once lower-cased, none of
  \<^verbatim>\<open>low\<close>, \<^verbatim>\<open>medium\<close>, \<^verbatim>\<open>high\<close>, \<^verbatim>\<open>critical\<close>, the command exits with a
  message that lists these four values, and the file is exactly what it was: nothing is
  written, whatever the store holds and whatever the other arguments are. The one other
  way out is on a file that \<^verbatim>\<open>_load\<close> cannot read at all: there the exception of
  \<^verbatim>\<open>_load\<close> comes first, and the file is left as it was too.
\<close>

theorem add_invalid_severity_rejected:
  assumes "lower ul (a_severity a) \<notin> set SEVERITIES"
  shows "add_incident ul f a uuid now =
           (case load f of
              Inl e \<Rightarrow> Inl (Uncaught e)
            | Inr v \<Rightarrow>
                Inl (ValidationError
                       ''Invalid severity. Use one of: low, medium, high, critical''),
            f)"
proof -
  have "severity (new_incident ul a uuid now) \<notin> set SEVERITIES"
    using assms by (simp add: new_incident_def)
  moreover have "add_invalid ''severity'' SEVERITIES =
      ''Invalid severity. Use one of: low, medium, high, critical''"
    by (simp add: SEVERITIES_def add_invalid_def)
  ultimately show ?thesis
    by (cases "load f") (simp_all add: add_incident_def Let_def)
qed

theorem add_invalid_severity_rejected_witness:
  "lower no_unicode (a_severity urgent_add) \<notin> set SEVERITIES \<and>
   add_incident no_unicode two_incidents urgent_add ''0c1d2e3f-5a6b-4c7d-8e9f-001122334455''
       ''2024-05-03T10:00:00'' =
     (Inl (ValidationError ''Invalid severity. Use one of: low, medium, high, critical''),
      two_incidents)"
proof -
  have l: "load two_incidents = Inr (JArr [phish, malware])"
    by (simp add: load_def two_incidents_def)
  have h: "lower no_unicode (a_severity urgent_add) \<notin> set SEVERITIES" by code_simp
  show ?thesis
    using l h add_invalid_severity_rejected[OF h, where f = two_incidents] by simp
qed

text \<open>
  Claim C5. When no record of the store has the id given to \<^verbatim>\<open>update\<close>, the command
  reports that no incident with this id was found and the file is exactly what it was:
  the store is not saved, so every field of every record is unchanged. This holds
  whatever the other arguments are, since they are only looked at for a matching record.
\<close>

theorem update_unknown_id_not_found:
  assumes "load f = Inr (JArr data)" and "u_id a \<notin> set (map inc_id data)"
  shows "update_incident ul f a now = (Inl (NotFoundError (no_incident (u_id a))), f)"
proof -
  from assms(2) have "\<forall>i \<in> set data. inc_id i \<noteq> u_id a"
    by (metis image_eqI set_map)
  then have "update_loop ul a now data = Inl (NotFoundError (no_incident (u_id a)))"
    by (rule update_loop_not_found)
  with assms(1) show ?thesis
    by (simp add: update_incident_def iter_array)
qed

theorem update_unknown_id_not_found_witness:
  "load two_incidents = Inr (JArr [phish, malware]) \<and>
   u_id unknown_id_update \<notin> set (map inc_id [phish, malware]) \<and>
   update_incident no_unicode two_incidents unknown_id_update ''2024-05-03T10:00:00'' =
     (Inl (NotFoundError ''No incident with id 00000000 found.''), two_incidents)"
proof -
  have l: "load two_incidents = Inr (JArr [phish, malware])"
    by (simp add: load_def two_incidents_def)
  have i: "u_id unknown_id_update \<notin> set (map inc_id [phish, malware])" by code_simp
  have m: "no_incident (u_id unknown_id_update) = ''No incident with id 00000000 found.''"
    by code_simp
  show ?thesis
    using l i m
      update_unknown_id_not_found[OF l i, where ul = no_unicode and now = "''2024-05-03T10:00:00''"]
    by simp
qed

text \<open>
  Claim C1, as the code has it. When \<^verbatim>\<open>update\<close> finds a record with the id and a
  status or phase that is supplied and not the empty string is not in its vocabulary
  once lower-cased, the command exits with the message for the first such field, status
  before phase, and the file is exactly what it was. A valid status that was already
  assigned in memory when the phase turned out to be invalid is therefore not persisted
  either.
\<close>

theorem update_invalid_field_aborts:
  assumes "load f = Inr (JArr data)" and "u_id a \<in> set (map inc_id data)"
    and "(truthy (u_status a) \<and> lower ul (or_empty (u_status a)) \<notin> set STATUSES) \<or>
         (truthy (u_phase a) \<and> lower ul (or_empty (u_phase a)) \<notin> set NIST_PHASES)"
  shows "update_incident ul f a now =
           (Inl (ValidationError
             (if truthy (u_status a) \<and> lower ul (or_empty (u_status a)) \<notin> set STATUSES
              then update_invalid ''status'' STATUSES
              else update_invalid ''phase'' NIST_PHASES)), f)"
proof -
  from first_split[OF assms(2)] obtain pre inc post where
    d: "data = pre @ inc # post" and p: "\<forall>i \<in> set pre. inc_id i \<noteq> u_id a"
    and i: "inc_id inc = u_id a"
    by blast
  have "update_loop ul a now data =
      (case update_record ul a now inc of Inl e \<Rightarrow> Inl e | Inr inc' \<Rightarrow> Inr (pre @ inc' # post))"
    unfolding d by (rule update_loop_first[OF p i])
  then have "update_loop ul a now data = Inl (ValidationError
             (if truthy (u_status a) \<and> lower ul (or_empty (u_status a)) \<notin> set STATUSES
              then update_invalid ''status'' STATUSES
              else update_invalid ''phase'' NIST_PHASES))"
    by (simp only: update_record_invalid[OF assms(3)] sum.case)
  with assms(1) show ?thesis
    by (simp add: update_incident_def iter_array)
qed

theorem update_invalid_field_aborts_witness:
  "load two_incidents = Inr (JArr [phish, malware]) \<and>
   u_id bad_phase_update \<in> set (map inc_id [phish, malware]) \<and>
   truthy (u_status bad_phase_update) \<and>
   lower no_unicode (or_empty (u_status bad_phase_update)) \<in> set STATUSES \<and>
   truthy (u_phase bad_phase_update) \<and>
   lower no_unicode (or_empty (u_phase bad_phase_update)) \<notin> set NIST_PHASES \<and>
   update_incident no_unicode two_incidents bad_phase_update ''2024-05-03T10:00:00'' =
     (Inl (ValidationError ''Invalid phase. Use: identify, protect, detect, respond, recover''),
      two_incidents)"
proof -
  have l: "load two_incidents = Inr (JArr [phish, malware])"
    by (simp add: load_def two_incidents_def)
  have i: "u_id bad_phase_update \<in> set (map inc_id [phish, malware])" by code_simp
  have ts: "truthy (u_status bad_phase_update)" by code_simp
  have vs: "lower no_unicode (or_empty (u_status bad_phase_update)) \<in> set STATUSES" by code_simp
  have t: "truthy (u_phase bad_phase_update)" by code_simp
  have v: "lower no_unicode (or_empty (u_phase bad_phase_update)) \<notin> set NIST_PHASES" by code_simp
  have m: "update_invalid ''phase'' NIST_PHASES =
      ''Invalid phase. Use: identify, protect, detect, respond, recover''"
    by code_simp
  from t v have d:
    "(truthy (u_status bad_phase_update) \<and>
        lower no_unicode (or_empty (u_status bad_phase_update)) \<notin> set STATUSES) \<or>
     (truthy (u_phase bad_phase_update) \<and>
        lower no_unicode (or_empty (u_phase bad_phase_update)) \<notin> set NIST_PHASES)"
    by blast
  show ?thesis
    using l i ts vs t v m
      update_invalid_field_aborts[OF l i d, where now = "''2024-05-03T10:00:00''"]
    by simp
qed

text \<open>
  Claim C1 as stated fails for a status or phase supplied as the empty string: the empty
  string is in neither vocabulary, yet \<^verbatim>\<open>if args.status:\<close> and
  \<^verbatim>\<open>if args.phase:\<close> skip the check for it. An update of \<open>malware\<close> with the empty
  status does not abort: it stamps the record and saves the store. An update with the
  status \<^verbatim>\<open>closed\<close> and the empty phase does not abort either, and the status it
  wrote is persisted.
\<close>

theorem update_invalid_field_aborts_counterexample:
  "u_id empty_status_update \<in> set (map inc_id [phish, malware]) \<and>
   u_status empty_status_update = Some [] \<and> [] \<notin> set STATUSES \<and>
   update_incident no_unicode two_incidents empty_status_update ''2024-05-03T10:00:00'' =
     (Inr ''a91d04f7'',
      Parsed (JArr [phish, malware\<lparr>updated_at := Some ''2024-05-03T10:00:00Z''\<rparr>])) \<and>
   u_id empty_phase_update \<in> set (map inc_id [phish, malware]) \<and>
   u_phase empty_phase_update = Some [] \<and> [] \<notin> set NIST_PHASES \<and>
   update_incident no_unicode two_incidents empty_phase_update ''2024-05-03T10:00:00'' =
     (Inr ''a91d04f7'',
      Parsed (JArr [phish, malware\<lparr>status := ''closed'',
                                    updated_at := Some ''2024-05-03T10:00:00Z''\<rparr>]))"
  by code_simp

subsection \<open>An update that supplies nothing\<close>

text \<open>
  Claim C10. When the store has a record with the id and the call supplies no status, no
  phase, no owner and no note (an empty status, phase or note counts as not supplied: it
  is skipped without being validated), \<^verbatim>\<open>update\<close> succeeds and persists the store
  with one change: the file it leaves loads as the records of before, in their order,
  where the first record with the id has \<^verbatim>\<open>updated_at\<close> set to the current time. All
  other fields of this record, the records before it and the records after it are as
  they were.
\<close>

theorem update_nothing_supplied_stamps:
  assumes "load f = Inr (JArr data)" and "u_id a \<in> set (map inc_id data)"
    and "\<not> truthy (u_status a)" and "\<not> truthy (u_phase a)" and "u_owner a = None"
    and "\<not> truthy (u_notes a)"
  shows "\<exists>pre inc post f'.
           data = pre @ inc # post \<and> u_id a \<notin> set (map inc_id pre) \<and> inc_id inc = u_id a \<and>
           update_incident ul f a now = (Inr (u_id a), f') \<and>
           load f' = Inr (JArr (pre @ inc\<lparr>updated_at := Some (now @ ''Z'')\<rparr> # post))"
proof -
  from first_split[OF assms(2)] obtain pre inc post where
    d: "data = pre @ inc # post" and p: "\<forall>i \<in> set pre. inc_id i \<noteq> u_id a"
    and i: "inc_id inc = u_id a"
    by blast
  let ?data' = "pre @ inc\<lparr>updated_at := Some (now @ ''Z'')\<rparr> # post"
  have "update_loop ul a now data =
      (case update_record ul a now inc of Inl e \<Rightarrow> Inl e | Inr inc' \<Rightarrow> Inr (pre @ inc' # post))"
    unfolding d by (rule update_loop_first[OF p i])
  then have "update_loop ul a now data = Inr ?data'"
    by (simp only: update_record_nothing[OF assms(3-6)] sum.case)
  with assms(1) have "update_incident ul f a now = (Inr (u_id a), save (JArr ?data'))"
    by (simp add: update_incident_def iter_array)
  moreover have "load (save (JArr ?data')) = Inr (JArr ?data')"
    by (rule load_save)
  moreover from p have "u_id a \<notin> set (map inc_id pre)" by auto
  ultimately show ?thesis using d i by blast
qed

theorem update_nothing_supplied_stamps_witness:
  "load two_incidents = Inr (JArr [phish, malware]) \<and>
   u_id touch_update \<in> set (map inc_id [phish, malware]) \<and>
   \<not> truthy (u_status touch_update) \<and> \<not> truthy (u_phase touch_update) \<and>
   u_owner touch_update = None \<and> \<not> truthy (u_notes touch_update) \<and>
   (\<exists>pre inc post f'.
      [phish, malware] = pre @ inc # post \<and> u_id touch_update \<notin> set (map inc_id pre) \<and>
      inc_id inc = u_id touch_update \<and>
      update_incident no_unicode two_incidents touch_update ''2024-05-03T10:00:00'' =
        (Inr (u_id touch_update), f') \<and>
      load f' =
        Inr (JArr (pre @ inc\<lparr>updated_at := Some (''2024-05-03T10:00:00'' @ ''Z'')\<rparr> # post))) \<and>
   load (snd (update_incident no_unicode two_incidents touch_update ''2024-05-03T10:00:00'')) =
     Inr (JArr [phish, malware\<lparr>updated_at := Some ''2024-05-03T10:00:00Z''\<rparr>])"
proof -
  have l: "load two_incidents = Inr (JArr [phish, malware])"
    by (simp add: load_def two_incidents_def)
  have i: "u_id touch_update \<in> set (map inc_id [phish, malware])" by code_simp
  have s: "\<not> truthy (u_status touch_update)" by code_simp
  have p: "\<not> truthy (u_phase touch_update)" by code_simp
  have ow: "u_owner touch_update = None" by code_simp
  have n: "\<not> truthy (u_notes touch_update)" by code_simp
  have r: "load (snd (update_incident no_unicode two_incidents touch_update
                        ''2024-05-03T10:00:00'')) =
     Inr (JArr [phish, malware\<lparr>updated_at := Some ''2024-05-03T10:00:00Z''\<rparr>])"
    by code_simp
  show ?thesis
    using l i s p ow n r
      update_nothing_supplied_stamps[OF l i s p ow n, where ul = no_unicode
        and now = "''2024-05-03T10:00:00''"]
    by blast
qed

subsection \<open>Listing\<close>

lemma filter_loop_eq: "filter_loop ul a acc data = acc @ filter (keeps ul a) data"
  by (induction data arbitrary: acc) simp_all

lemma keeps_iff:
  "keeps ul a inc \<longleftrightarrow>
     (truthy (l_severity a) \<longrightarrow> severity inc = lower ul (or_empty (l_severity a))) \<and>
     (truthy (l_phase a) \<longrightarrow> phase inc = lower ul (or_empty (l_phase a))) \<and>
     (truthy (l_status a) \<longrightarrow> status inc = lower ul (or_empty (l_status a))) \<and>
     (truthy (l_owner a) \<longrightarrow> lower ul (or_empty (owner inc)) = lower ul (or_empty (l_owner a)))"
  by (simp add: keeps_def mismatch_def)

lemma keeps_split:
  "keeps ul a inc \<longleftrightarrow>
     keeps ul (severity_only a) inc \<and> keeps ul (phase_only a) inc \<and>
     keeps ul (status_only a) inc \<and> keeps ul (owner_only a) inc"
  by (simp add: keeps_def mismatch_def truthy_def severity_only_def phase_only_def
      status_only_def owner_only_def)

lemma fold_filter_keeps:
  "fold (\<lambda>p. filter (keeps ul p)) ps data = filter (\<lambda>x. \<forall>p \<in> set ps. keeps ul p x) data"
  by (induction ps arbitrary: data) simp_all

lemma fold_filter_loop:
  "fold (\<lambda>p d. filter_loop ul p [] d) ps data = filter (\<lambda>x. \<forall>p \<in> set ps. keeps ul p x) data"
  by (simp add: filter_loop_eq fold_filter_keeps)

lemma spec_eq_lower:
  "arg \<noteq> Some [] \<Longrightarrow> lower ul v = v \<Longrightarrow> spec_eq ul arg v \<longleftrightarrow> \<not> mismatch ul arg v"
  by (cases arg) (simp_all add: spec_eq_def mismatch_def truthy_def or_empty_def)

lemma spec_eq_owner:
  "arg \<noteq> Some [] \<Longrightarrow> spec_eq ul arg v \<longleftrightarrow> \<not> mismatch ul arg (lower ul v)"
  by (cases arg) (simp_all add: spec_eq_def mismatch_def truthy_def or_empty_def)

lemma spec_matches_keeps:
  assumes "l_severity a \<noteq> Some []" "l_phase a \<noteq> Some []" "l_status a \<noteq> Some []"
    "l_owner a \<noteq> Some []"
    and "lower ul (severity inc) = severity inc" "lower ul (phase inc) = phase inc"
    "lower ul (status inc) = status inc"
  shows "spec_matches ul a inc \<longleftrightarrow> keeps ul a inc"
  using assms by (simp add: spec_matches_def keeps_def spec_eq_lower spec_eq_owner)

text \<open>
  Claim C7, as the code has it. The listing is the store filtered, in store order, by the
  tests of the loop: a severity, phase or status predicate that is present and not empty
  passes a record whose stored value equals the predicate lower-cased; an owner predicate
  that is present and not empty passes a record whose owner (empty when absent) equals
  the predicate after both are lower-cased; an absent or empty predicate passes every
  record. When no predicate is an empty string and the stored severity, phase and status
  are lower-case, as \<^verbatim>\<open>add\<close> and \<^verbatim>\<open>update\<close> write them, this is the
  specification's filter, equality up to case on every supplied predicate. Applying the
  four predicates one at a time, in any order and any number of times, gives the same
  records as applying them together.
\<close>

theorem list_incidents_filter:
  assumes "load f = Inr (JArr data)"
  shows "list_incidents ul f a =
           Inr (let r = filter (\<lambda>inc.
                      (truthy (l_severity a) \<longrightarrow> severity inc = lower ul (or_empty (l_severity a))) \<and>
                      (truthy (l_phase a) \<longrightarrow> phase inc = lower ul (or_empty (l_phase a))) \<and>
                      (truthy (l_status a) \<longrightarrow> status inc = lower ul (or_empty (l_status a))) \<and>
                      (truthy (l_owner a) \<longrightarrow>
                         lower ul (or_empty (owner inc)) = lower ul (or_empty (l_owner a)))) data
                in if r = [] then NoIncidentsFound else Rows r) \<and>
         (l_severity a \<noteq> Some [] \<and> l_phase a \<noteq> Some [] \<and> l_status a \<noteq> Some [] \<and>
          l_owner a \<noteq> Some [] \<and>
          (\<forall>inc \<in> set data. lower ul (severity inc) = severity inc \<and>
             lower ul (phase inc) = phase inc \<and> lower ul (status inc) = status inc) \<longrightarrow>
          filter_loop ul a [] data = filter (spec_matches ul a) data) \<and>
         (set ps = {severity_only a, phase_only a, status_only a, owner_only a} \<longrightarrow>
          fold (\<lambda>p d. filter_loop ul p [] d) ps data = filter_loop ul a [] data)"
proof (intro conjI impI)
  have "filter_loop ul a [] data = filter (keeps ul a) data"
    by (simp add: filter_loop_eq)
  then show "list_incidents ul f a =
           Inr (let r = filter (\<lambda>inc.
                      (truthy (l_severity a) \<longrightarrow> severity inc = lower ul (or_empty (l_severity a))) \<and>
                      (truthy (l_phase a) \<longrightarrow> phase inc = lower ul (or_empty (l_phase a))) \<and>
                      (truthy (l_status a) \<longrightarrow> status inc = lower ul (or_empty (l_status a))) \<and>
                      (truthy (l_owner a) \<longrightarrow>
                         lower ul (or_empty (owner inc)) = lower ul (or_empty (l_owner a)))) data
                in if r = [] then NoIncidentsFound else Rows r)"
    using assms
    by (simp add: list_incidents_def iter_array Let_def keeps_iff[symmetric])
next
  assume h: "l_severity a \<noteq> Some [] \<and> l_phase a \<noteq> Some [] \<and> l_status a \<noteq> Some [] \<and>
          l_owner a \<noteq> Some [] \<and>
          (\<forall>inc \<in> set data. lower ul (severity inc) = severity inc \<and>
             lower ul (phase inc) = phase inc \<and> lower ul (status inc) = status inc)"
  then have "\<forall>inc \<in> set data. spec_matches ul a inc \<longleftrightarrow> keeps ul a inc"
    using spec_matches_keeps[where a = a and ul = ul] by blast
  then have "filter (spec_matches ul a) data = filter (keeps ul a) data"
    by (simp cong: filter_cong)
  then show "filter_loop ul a [] data = filter (spec_matches ul a) data"
    by (simp add: filter_loop_eq)
next
  assume "set ps = {severity_only a, phase_only a, status_only a, owner_only a}"
  then have "(\<lambda>x. \<forall>p \<in> set ps. keeps ul p x) = keeps ul a"
    by (simp add: fun_eq_iff keeps_split[where a = a])
  then have "filter (\<lambda>x. \<forall>p \<in> set ps. keeps ul p x) data = filter (keeps ul a) data"
    by (simp only:)
  then show "fold (\<lambda>p d. filter_loop ul p [] d) ps data = filter_loop ul a [] data"
    by (simp add: filter_loop_eq fold_filter_keeps)
qed

theorem list_incidents_filter_witness:
  "load two_incidents = Inr (JArr [phish, malware]) \<and>
   list_incidents no_unicode two_incidents bob_listing = Inr (Rows [malware]) \<and>
   truthy (l_severity bob_listing) \<and> truthy (l_status bob_listing) \<and>
   truthy (l_owner bob_listing) \<and>
   l_severity bob_listing \<noteq> Some [] \<and> l_phase bob_listing \<noteq> Some [] \<and>
   l_status bob_listing \<noteq> Some [] \<and> l_owner bob_listing \<noteq> Some [] \<and>
   lower no_unicode (severity phish) = severity phish \<and> lower no_unicode (phase phish) = phase phish \<and>
   lower no_unicode (status phish) = status phish \<and>
   lower no_unicode (severity malware) = severity malware \<and> lower no_unicode (phase malware) = phase malware \<and>
   lower no_unicode (status malware) = status malware \<and>
   filter_loop no_unicode bob_listing [] [phish, malware] = filter (spec_matches no_unicode bob_listing) [phish, malware] \<and>
   set [owner_only bob_listing, status_only bob_listing, phase_only bob_listing,
        severity_only bob_listing] =
     {severity_only bob_listing, phase_only bob_listing, status_only bob_listing,
      owner_only bob_listing} \<and>
   fold (\<lambda>p d. filter_loop no_unicode p [] d)
     [owner_only bob_listing, status_only bob_listing, phase_only bob_listing,
      severity_only bob_listing] [phish, malware] = filter_loop no_unicode bob_listing [] [phish, malware]"
proof -
  let ?ps = "[owner_only bob_listing, status_only bob_listing, phase_only bob_listing,
        severity_only bob_listing]"
  have l: "load two_incidents = Inr (JArr [phish, malware])" by (simp add: load_def two_incidents_def)
  have r: "list_incidents no_unicode two_incidents bob_listing = Inr (Rows [malware])" by code_simp
  have t: "truthy (l_severity bob_listing) \<and> truthy (l_status bob_listing) \<and>
     truthy (l_owner bob_listing)" by code_simp
  have e: "l_severity bob_listing \<noteq> Some [] \<and> l_phase bob_listing \<noteq> Some [] \<and>
    l_status bob_listing \<noteq> Some [] \<and> l_owner bob_listing \<noteq> Some []" by code_simp
  have c: "lower no_unicode (severity phish) = severity phish \<and> lower no_unicode (phase phish) = phase phish \<and>
    lower no_unicode (status phish) = status phish \<and>
    lower no_unicode (severity malware) = severity malware \<and> lower no_unicode (phase malware) = phase malware \<and>
    lower no_unicode (status malware) = status malware" by code_simp
  from e c have d: "l_severity bob_listing \<noteq> Some [] \<and> l_phase bob_listing \<noteq> Some [] \<and>
    l_status bob_listing \<noteq> Some [] \<and> l_owner bob_listing \<noteq> Some [] \<and>
    (\<forall>inc \<in> set [phish, malware]. lower no_unicode (severity inc) = severity inc \<and>
       lower no_unicode (phase inc) = phase inc \<and> lower no_unicode (status inc) = status inc)" by simp
  have s: "set ?ps = {severity_only bob_listing, phase_only bob_listing, status_only bob_listing,
      owner_only bob_listing}" by auto
  show ?thesis
    using l r t e c d s list_incidents_filter[OF l, where ul = no_unicode and a = bob_listing and ps = ?ps] by blast
qed

text \<open>
  Claim C7 as stated fails in two places. An owner predicate that is the empty string is
  supplied but constrains nothing: listing with it returns both example records, while
  only \<open>phish\<close> has an empty owner. And the stored severity is compared as it is: a
  record stored with severity \<^verbatim>\<open>HIGH\<close> is not listed for the predicate
  \<^verbatim>\<open>high\<close>, although the two are equal up to case.
\<close>

theorem list_incidents_filter_counterexample:
  "list_incidents no_unicode two_incidents unowned_listing = Inr (Rows [phish, malware]) \<and>
   filter (spec_matches no_unicode unowned_listing) [phish, malware] = [phish] \<and>
   list_incidents no_unicode (Parsed (JArr [shouting])) high_listing = Inr NoIncidentsFound \<and>
   filter (spec_matches no_unicode high_listing) [shouting] = [shouting]"
  by code_simp

subsection \<open>Statistics\<close>

lemma count_key_keys: "fst ` set (count_key k c) = insert k (fst ` set c)"
  by (induction k c rule: count_key.induct) (simp_all add: insert_commute)

lemma count_key_distinct: "distinct (map fst c) \<Longrightarrow> distinct (map fst (count_key k c))"
proof (induction k c rule: count_key.induct)
  case (1 k)
  then show ?case by simp
next
  case (2 k k' n kvs)
  show ?case
  proof (cases "k = k'")
    case True
    with 2 show ?thesis by simp
  next
    case False
    with 2 have "distinct (map fst (count_key k kvs))" by simp
    moreover from 2 False have "k' \<notin> fst ` set (count_key k kvs)"
      by (simp add: count_key_keys)
    ultimately show ?thesis using False by simp
  qed
qed

lemma count_key_sum: "sum_list (map snd (count_key k c)) = Suc (sum_list (map snd c))"
  by (induction k c rule: count_key.induct) simp_all

lemma count_key_lookup_same:
  "map_of (count_key k c) k = Some (case map_of c k of None \<Rightarrow> 1 | Some n \<Rightarrow> n + 1)"
  by (induction k c rule: count_key.induct) simp_all

lemma count_key_lookup_other:
  "k' \<noteq> k \<Longrightarrow> map_of (count_key k c) k' = map_of c k'"
  by (induction k c rule: count_key.induct) auto

lemma count_key_lookup:
  "map_of (count_key k c) k' =
     (if k' = k then Some (case map_of c k of None \<Rightarrow> 1 | Some n \<Rightarrow> n + 1) else map_of c k')"
  by (simp add: count_key_lookup_same count_key_lookup_other)

lemma foldl_count_keys:
  "fst ` set (foldl (\<lambda>c k. count_key k c) c xs) = fst ` set c \<union> set xs"
  by (induction xs arbitrary: c) (simp_all add: count_key_keys)

lemma foldl_count_distinct:
  "distinct (map fst c) \<Longrightarrow> distinct (map fst (foldl (\<lambda>c k. count_key k c) c xs))"
  by (induction xs arbitrary: c) (simp_all add: count_key_distinct)

lemma foldl_count_sum:
  "sum_list (map snd (foldl (\<lambda>c k. count_key k c) c xs)) = sum_list (map snd c) + length xs"
  by (induction xs arbitrary: c) (simp_all add: count_key_sum)

lemma foldl_count_lookup:
  "map_of (foldl (\<lambda>c k. count_key k c) c xs) k =
     (case map_of c k of
        None \<Rightarrow> if k \<in> set xs then Some (count_list xs k) else None
      | Some n \<Rightarrow> Some (n + count_list xs k))"
proof (induction xs arbitrary: c)
  case Nil
  then show ?case by (simp split: option.splits)
next
  case (Cons x xs)
  show ?case
    by (simp add: Cons.IH count_key_lookup split: option.splits)
qed

lemma Counter_keys: "set (map fst (Counter xs)) = set xs"
  using foldl_count_keys[of "[]" xs] by (simp add: Counter_def)

lemma Counter_distinct: "distinct (map fst (Counter xs))"
  using foldl_count_distinct[of "[]" xs] by (simp add: Counter_def)

lemma Counter_sum: "sum_list (map snd (Counter xs)) = length xs"
  using foldl_count_sum[of "[]" xs] by (simp add: Counter_def)

lemma Counter_lookup:
  "map_of (Counter xs) k = (if k \<in> set xs then Some (count_list xs k) else None)"
  using foldl_count_lookup[of "[]" xs k] by (simp add: Counter_def)

text \<open>
  Claim C8, as the code has it. For a store with at least one record, \<^verbatim>\<open>stats\<close>
  builds three counters, by severity, by phase and by status. In each of them the counts
  add up to the number of records, the keys are the distinct values that occur in the
  records, each once, and the count of a key is the number of records with that value.
\<close>

theorem stats_counts:
  assumes "load f = Inr (JArr data)" and "data \<noteq> []"
  shows "\<exists>by_sev by_phase by_status.
           stats f = Inr (Counts by_sev by_phase by_status) \<and>
           sum_list (map snd by_sev) = length data \<and>
           sum_list (map snd by_phase) = length data \<and>
           sum_list (map snd by_status) = length data \<and>
           distinct (map fst by_sev) \<and> set (map fst by_sev) = set (map severity data) \<and>
           distinct (map fst by_phase) \<and> set (map fst by_phase) = set (map phase data) \<and>
           distinct (map fst by_status) \<and> set (map fst by_status) = set (map status data) \<and>
           (\<forall>k. map_of by_sev k =
              (if k \<in> set (map severity data) then Some (count_list (map severity data) k) else None)) \<and>
           (\<forall>k. map_of by_phase k =
              (if k \<in> set (map phase data) then Some (count_list (map phase data) k) else None)) \<and>
           (\<forall>k. map_of by_status k =
              (if k \<in> set (map status data) then Some (count_list (map status data) k) else None))"
proof -
  have "stats f = Inr (Counts (Counter (map severity data)) (Counter (map phase data))
                          (Counter (map status data)))"
    using assms by (simp add: stats_def json_truthy_def)
  then show ?thesis
    using Counter_sum[of "map severity data"] Counter_sum[of "map phase data"]
      Counter_sum[of "map status data"]
      Counter_distinct Counter_keys Counter_lookup
    by (intro exI conjI allI) (assumption | simp)+
qed

theorem stats_counts_witness:
  "load two_incidents = Inr (JArr [phish, malware]) \<and> [phish, malware] \<noteq> [] \<and>
   stats two_incidents =
     Inr (Counts [(''low'', 1), (''high'', 1)] [(''detect'', 1), (''respond'', 1)]
                 [(''open'', 1), (''contained'', 1)]) \<and>
   (\<exists>by_sev by_phase by_status.
           stats two_incidents = Inr (Counts by_sev by_phase by_status) \<and>
           sum_list (map snd by_sev) = length [phish, malware] \<and>
           sum_list (map snd by_phase) = length [phish, malware] \<and>
           sum_list (map snd by_status) = length [phish, malware])"
proof -
  have l: "load two_incidents = Inr (JArr [phish, malware])" by (simp add: load_def two_incidents_def)
  have n: "[phish, malware] \<noteq> []" by simp
  have r: "stats two_incidents =
     Inr (Counts [(''low'', 1), (''high'', 1)] [(''detect'', 1), (''respond'', 1)]
                 [(''open'', 1), (''contained'', 1)])" by code_simp
  from stats_counts[OF l n] have "\<exists>by_sev by_phase by_status.
           stats two_incidents = Inr (Counts by_sev by_phase by_status) \<and>
           sum_list (map snd by_sev) = length [phish, malware] \<and>
           sum_list (map snd by_phase) = length [phish, malware] \<and>
           sum_list (map snd by_status) = length [phish, malware]" by blast
  with l n r show ?thesis by blast
qed

text \<open>
  Claim C8 as stated fails for the empty store: \<^verbatim>\<open>stats\<close> returns after the message
  that there are no incidents yet, before any counter is built, so it does not produce
  three (empty) mappings.
\<close>

theorem stats_counts_counterexample:
  "stats (Parsed (JArr [])) = Inr NoIncidentsYet \<and>
   stats (Parsed (JArr [])) \<noteq> Inr (Counts [] [] [])"
  by code_simp

subsection \<open>Loading\<close>

text \<open>
  Claim C2, as the code has it. What \<^verbatim>\<open>_save\<close> wrote, \<^verbatim>\<open>_load\<close> returns. It
  fails, with the exception \<open>e\<close>, exactly when reading the file raises an exception
  \<open>e\<close> other than \<^verbatim>\<open>JSONDecodeError\<close>. It returns the value \<open>w\<close> exactly when the
  file decodes to \<open>w\<close>, whatever the shape of \<open>w\<close>, or when \<open>w\<close> is the empty
  sequence and the file does not exist or its text is not JSON. So of the contents that
  are malformed in the specification's sense, the ones that load as the empty sequence
  are exactly the texts that are not JSON.
\<close>

theorem load_returns_parsed_or_empty:
  "load (save v) = Inr v \<and>
   (load f = Inl e \<longleftrightarrow> f = Unloadable e) \<and>
   (load f = Inr w \<longleftrightarrow> f = Parsed w \<or> (w = JArr [] \<and> (f = Missing \<or> f = NotJSON))) \<and>
   (spec_malformed f \<longrightarrow> (load f = Inr (JArr []) \<longleftrightarrow> f = NotJSON))"
proof (intro conjI impI)
  show "load (save v) = Inr v"
    by (rule load_save)
  show "load f = Inl e \<longleftrightarrow> f = Unloadable e"
    by (cases f) (simp_all add: load_def)
  show "load f = Inr w \<longleftrightarrow> f = Parsed w \<or> (w = JArr [] \<and> (f = Missing \<or> f = NotJSON))"
    by (cases f) (auto simp: load_def)
next
  assume m: "spec_malformed f"
  show "load f = Inr (JArr []) \<longleftrightarrow> f = NotJSON"
  proof (cases f)
    case (Parsed v)
    with m have "v \<noteq> JArr []"
      by (cases v) (simp_all add: spec_malformed_def)
    with Parsed show ?thesis by (simp add: load_def)
  qed (use m in \<open>simp_all add: load_def spec_malformed_def\<close>)
qed

theorem load_returns_parsed_or_empty_witness:
  "spec_malformed NotJSON \<and> load NotJSON = Inr (JArr []) \<and>
   load (save (JArr [phish, malware])) = Inr (JArr [phish, malware]) \<and>
   load Missing = Inr (JArr [])"
proof -
  have m: "spec_malformed NotJSON" by (simp add: spec_malformed_def)
  show ?thesis
    using m load_returns_parsed_or_empty[where f = NotJSON and v = "JArr [phish, malware]"]
      load_returns_parsed_or_empty[where f = Missing and w = "JArr []"]
    by simp
qed

text \<open>
  Claim C2 as stated fails in two ways. Content that is JSON but not a sequence of
  records is returned as it is: a file holding the empty object \<^verbatim>\<open>{}\<close> is malformed
  in the specification's sense, and \<^verbatim>\<open>_load\<close> returns that object, not an empty
  sequence. And content that is not UTF-8 makes \<^verbatim>\<open>_load\<close> fail: the
  \<^verbatim>\<open>UnicodeDecodeError\<close> is not caught.
\<close>

theorem load_malformed_counterexample:
  "spec_malformed (Parsed (JObj [])) \<and> load (Parsed (JObj [])) = Inr (JObj []) \<and>
   JObj [] \<noteq> JArr [] \<and>
   spec_malformed (Unloadable UnicodeDecodeError) \<and>
   load (Unloadable UnicodeDecodeError) = Inl UnicodeDecodeError"
  by (simp add: load_def spec_malformed_def)

subsection \<open>Adding\<close>

text \<open>
  Claim C4, as the code has it. For a store that loads as a sequence of records (a
  missing file, and one whose text is not JSON, load as the empty one) and a severity and
  a phase that are in their vocabularies once lower-cased, \<^verbatim>\<open>add\<close> succeeds, and
  the store then loads
  as the prior records followed by one new record: title, owner and notes as given (an
  absent owner or note is the empty string), category, severity and phase lower-cased,
  status \<^verbatim>\<open>open\<close>, the time of the call as \<^verbatim>\<open>reported_at\<close>, no
  \<^verbatim>\<open>updated_at\<close>. Its id is the first eight characters of the generated UUID; it
  differs from every id of the store when these eight characters are not among them.
\<close>

theorem add_appends_record:
  assumes "load f = Inr (JArr data)"
    and "lower ul (a_severity a) \<in> set SEVERITIES" and "lower ul (a_phase a) \<in> set NIST_PHASES"
  shows "\<exists>inc f'.
           add_incident ul f a uuid now = (Inr inc, f') \<and> load f' = Inr (JArr (data @ [inc])) \<and>
           title inc = a_title a \<and> category inc = lower ul (a_category a) \<and>
           severity inc = lower ul (a_severity a) \<and> phase inc = lower ul (a_phase a) \<and>
           status inc = ''open'' \<and> reported_at inc = now @ ''Z'' \<and> updated_at inc = None \<and>
           owner inc = Some (or_empty (a_owner a)) \<and>
           inc_notes inc = Some (or_empty (a_notes a)) \<and>
           inc_id inc = take 8 uuid \<and>
           (take 8 uuid \<notin> set (map inc_id data) \<longrightarrow> inc_id inc \<notin> set (map inc_id data))"
proof -
  let ?inc = "new_incident ul a uuid now"
  have "add_incident ul f a uuid now = (Inr ?inc, save (JArr (data @ [?inc])))"
    using assms by (simp add: add_incident_def Let_def new_incident_def)
  moreover have "load (save (JArr (data @ [?inc]))) = Inr (JArr (data @ [?inc]))"
    by (rule load_save)
  ultimately show ?thesis
    by (intro exI[of _ ?inc] exI[of _ "save (JArr (data @ [?inc]))"])
       (simp add: new_incident_def)
qed

theorem add_appends_record_witness:
  "load two_incidents = Inr (JArr [phish, malware]) \<and>
   lower no_unicode (a_severity sample_add) \<in> set SEVERITIES \<and>
   lower no_unicode (a_phase sample_add) \<in> set NIST_PHASES \<and>
   take 8 fresh_uuid \<notin> set (map inc_id [phish, malware]) \<and>
   (\<exists>inc f'.
      add_incident no_unicode two_incidents sample_add fresh_uuid ''2024-05-03T10:00:00'' = (Inr inc, f') \<and>
      load f' = Inr (JArr ([phish, malware] @ [inc])) \<and>
      title inc = ''Odd login'' \<and> category inc = ''access'' \<and> severity inc = ''high'' \<and>
      phase inc = ''detect'' \<and> status inc = ''open'' \<and> owner inc = Some ''Ann'' \<and>
      inc_notes inc = Some [] \<and> inc_id inc = ''0c1d2e3f'' \<and>
      inc_id inc \<notin> set (map inc_id [phish, malware]))"
proof -
  have l: "load two_incidents = Inr (JArr [phish, malware])" by (simp add: load_def two_incidents_def)
  have s: "lower no_unicode (a_severity sample_add) \<in> set SEVERITIES" by code_simp
  have p: "lower no_unicode (a_phase sample_add) \<in> set NIST_PHASES" by code_simp
  have u: "take 8 fresh_uuid \<notin> set (map inc_id [phish, malware])" by code_simp
  have v: "a_title sample_add = ''Odd login'' \<and> lower no_unicode (a_category sample_add) = ''access'' \<and>
     lower no_unicode (a_severity sample_add) = ''high'' \<and> lower no_unicode (a_phase sample_add) = ''detect'' \<and>
     or_empty (a_owner sample_add) = ''Ann'' \<and> or_empty (a_notes sample_add) = [] \<and>
     take 8 fresh_uuid = ''0c1d2e3f''" by code_simp
  from add_appends_record[OF l s p, where uuid = fresh_uuid
      and now = "''2024-05-03T10:00:00''"] u v
  have "\<exists>inc f'.
      add_incident no_unicode two_incidents sample_add fresh_uuid ''2024-05-03T10:00:00'' = (Inr inc, f') \<and>
      load f' = Inr (JArr ([phish, malware] @ [inc])) \<and>
      title inc = ''Odd login'' \<and> category inc = ''access'' \<and> severity inc = ''high'' \<and>
      phase inc = ''detect'' \<and> status inc = ''open'' \<and> owner inc = Some ''Ann'' \<and>
      inc_notes inc = Some [] \<and> inc_id inc = ''0c1d2e3f'' \<and>
      inc_id inc \<notin> set (map inc_id [phish, malware])"
    by (elim exE conjE, intro exI conjI) (assumption | simp)+
  with l s p u show ?thesis by blast
qed

text \<open>
  Claim C4 as stated fails where the generated UUID starts with the eight characters of
  an id that is already in the store: nothing compares the new id with the old ones, and
  the record is appended with the id of \<open>phish\<close>.
\<close>

theorem add_unique_id_counterexample:
  "load two_incidents = Inr (JArr [phish, malware]) \<and>
   lower no_unicode (a_severity sample_add) \<in> set SEVERITIES \<and>
   lower no_unicode (a_phase sample_add) \<in> set NIST_PHASES \<and>
   add_incident no_unicode two_incidents sample_add colliding_uuid ''2024-05-03T10:00:00'' =
     (Inr (new_incident no_unicode sample_add colliding_uuid ''2024-05-03T10:00:00''),
      Parsed (JArr [phish, malware, new_incident no_unicode sample_add colliding_uuid ''2024-05-03T10:00:00''])) \<and>
   inc_id (new_incident no_unicode sample_add colliding_uuid ''2024-05-03T10:00:00'') = inc_id phish"
  by code_simp

subsection \<open>Uniqueness of ids\<close>

lemma update_record_id: "update_record ul a now inc = Inr inc' \<Longrightarrow> inc_id inc' = inc_id inc"
  by (auto simp: update_record_def Let_def split: if_splits option.splits)

lemma update_loop_ids:
  "update_loop ul a now data = Inr data' \<Longrightarrow> map inc_id data' = map inc_id data"
proof (induction data arbitrary: data')
  case Nil
  then show ?case by simp
next
  case (Cons inc rest)
  show ?case
  proof (cases "inc_id inc = u_id a")
    case True
    with Cons.prems obtain inc' where "update_record ul a now inc = Inr inc'" "data' = inc' # rest"
      by (auto split: sum.splits)
    then show ?thesis using update_record_id by simp
  next
    case False
    with Cons.prems obtain rest' where "update_loop ul a now rest = Inr rest'" "data' = inc # rest'"
      by (auto split: sum.splits)
    then show ?thesis using Cons.IH by simp
  qed
qed

lemma store_ids_save: "store_ids (save (JArr data)) = map inc_id data"
  by (simp add: store_ids_def load_save)

lemma update_incident_ids: "store_ids (snd (update_incident ul f a now)) = store_ids f"
proof (cases "load f")
  case (Inl e)
  then show ?thesis by (simp add: update_incident_def)
next
  case v: (Inr v)
  show ?thesis
  proof (cases "py_iter v")
    case (Incidents data)
    then have d: "v = JArr data"
      by (cases v) (simp_all add: py_iter_def)
    show ?thesis
    proof (cases "update_loop ul a now data")
      case (Inl e)
      with v Incidents show ?thesis by (simp add: update_incident_def)
    next
      case (Inr data')
      from update_loop_ids[OF Inr] have "store_ids (save (JArr data')) = store_ids f"
        using v d by (simp add: store_ids_save) (simp add: store_ids_def)
      with v Incidents Inr show ?thesis
        by (simp add: update_incident_def)
    qed
  next
    case (Strs ss)
    with v show ?thesis by (simp add: update_incident_def)
  next
    case NotIterable
    with v show ?thesis by (simp add: update_incident_def)
  qed
qed

lemma init_store_ids: "ids_unique f \<Longrightarrow> ids_unique (snd (init_store f force))"
  by (simp add: init_store_def ids_unique_def store_ids_save)

lemma add_incident_ids:
  assumes "ids_unique f" and "take 8 uuid \<notin> set (store_ids f)"
  shows "ids_unique (snd (add_incident ul f a uuid now))"
proof (cases "load f")
  case (Inl e)
  with assms(1) show ?thesis by (simp add: add_incident_def)
next
  case v: (Inr v)
  show ?thesis
  proof (cases v)
    case (JArr xs)
    with v assms have "distinct (map inc_id xs)" "take 8 uuid \<notin> set (map inc_id xs)"
      by (simp_all add: ids_unique_def store_ids_def)
    then have "ids_unique (save (JArr (xs @ [new_incident ul a uuid now])))"
      by (simp add: ids_unique_def store_ids_save new_incident_def)
    with v JArr assms(1) show ?thesis
      by (simp add: add_incident_def Let_def)
  qed (use v assms(1) in \<open>simp_all add: add_incident_def Let_def\<close>)
qed

lemma seed_ids:
  assumes "ids_unique f" and "ids_unique sample"
  shows "ids_unique (snd (seed sample f))"
  using assms by (cases sample) (simp_all add: seed_def save_def split: option.splits)

text \<open>
  Claim C9, as the code has it. From a store with unique ids, \<^verbatim>\<open>init\<close> and
  \<^verbatim>\<open>update\<close> always lead to a store with unique ids (\<^verbatim>\<open>update\<close> leaves the
  sequence of ids as it is), \<^verbatim>\<open>add\<close> does when the first eight characters of the
  generated UUID are not an id of the store, and \<^verbatim>\<open>seed\<close> does when the ids of the
  sample are unique. Listing and statistics write nothing.
\<close>

theorem ids_unique_preserved:
  assumes "ids_unique f"
  shows "ids_unique (snd (init_store f force)) \<and>
         store_ids (snd (update_incident ul f u now)) = store_ids f \<and>
         ids_unique (snd (update_incident ul f u now)) \<and>
         (take 8 uuid \<notin> set (store_ids f) \<longrightarrow> ids_unique (snd (add_incident ul f a uuid now))) \<and>
         (ids_unique sample \<longrightarrow> ids_unique (snd (seed sample f)))"
  using assms init_store_ids add_incident_ids seed_ids
  by (simp add: update_incident_ids ids_unique_def)

theorem ids_unique_preserved_witness:
  "ids_unique two_incidents \<and>
   take 8 fresh_uuid \<notin> set (store_ids two_incidents) \<and>
   ids_unique (Parsed (JArr [malware])) \<and>
   ids_unique (snd (init_store two_incidents True)) \<and>
   store_ids (snd (update_incident no_unicode two_incidents touch_update ''2024-05-03T10:00:00'')) =
     store_ids two_incidents \<and>
   ids_unique (snd (update_incident no_unicode two_incidents touch_update ''2024-05-03T10:00:00'')) \<and>
   ids_unique (snd (add_incident no_unicode two_incidents sample_add fresh_uuid ''2024-05-03T10:00:00'')) \<and>
   ids_unique (snd (seed (Parsed (JArr [malware])) two_incidents))"
proof -
  have i: "ids_unique two_incidents" by code_simp
  have u: "take 8 fresh_uuid \<notin> set (store_ids two_incidents)" by code_simp
  have s: "ids_unique (Parsed (JArr [malware]))" by code_simp
  show ?thesis
    using i u s
      ids_unique_preserved[OF i, where force = True and ul = no_unicode and u = touch_update
        and now = "''2024-05-03T10:00:00''" and uuid = fresh_uuid and a = sample_add
        and sample = "Parsed (JArr [malware])"]
    by blast
qed

text \<open>
  Claim C9 as stated fails: from the store that \<^verbatim>\<open>init\<close> creates, two calls of
  \<^verbatim>\<open>add\<close> whose UUIDs share their first eight characters reach a store in which two
  records have the same id.
\<close>

theorem ids_unique_counterexample:
  "ids_unique (snd (init_store Missing False)) \<and>
   ids_unique (snd (add_incident no_unicode (snd (init_store Missing False)) sample_add colliding_uuid
                      ''2024-05-03T10:00:00'')) \<and>
   \<not> ids_unique
       (snd (add_incident no_unicode
               (snd (add_incident no_unicode (snd (init_store Missing False)) sample_add colliding_uuid
                       ''2024-05-03T10:00:00''))
               second_add second_colliding_uuid ''2024-05-04T11:00:00''))"
  by code_simp

subsection \<open>Notes are appended\<close>

lemma first_with_id_Some:
  "first_with_id x data = Some inc \<Longrightarrow>
   \<exists>pre post. data = pre @ inc # post \<and> (\<forall>i \<in> set pre. inc_id i \<noteq> x) \<and> inc_id inc = x"
proof (induction data)
  case Nil
  then show ?case by (simp add: first_with_id_def)
next
  case (Cons d ds)
  show ?case
  proof (cases "inc_id d = x")
    case True
    with Cons.prems have "d = inc" by (simp add: first_with_id_def)
    with True have "d # ds = [] @ inc # ds \<and> (\<forall>i \<in> set []. inc_id i \<noteq> x) \<and> inc_id inc = x"
      by simp
    then show ?thesis by blast
  next
    case False
    with Cons.prems have "first_with_id x ds = Some inc" by (simp add: first_with_id_def)
    from Cons.IH[OF this] obtain pre post where
      h: "ds = pre @ inc # post" "\<forall>i \<in> set pre. inc_id i \<noteq> x" "inc_id inc = x"
      by blast
    with False have
      "d # ds = (d # pre) @ inc # post \<and> (\<forall>i \<in> set (d # pre). inc_id i \<noteq> x) \<and> inc_id inc = x"
      by simp
    then show ?thesis by blast
  qed
qed

lemma update_record_notes:
  assumes "fields_valid ul a" and "truthy (u_notes a)"
  shows "\<exists>inc'. update_record ul a now inc = Inr inc' \<and> inc_id inc' = inc_id inc \<and>
           inc_notes inc' = Some ((if truthy (inc_notes inc)
                                   then or_empty (inc_notes inc) @ [CHR 0x0A] else [])
                                  @ or_empty (u_notes a))"
  using assms
  by (cases "u_owner a") (auto simp: update_record_def fields_valid_def Let_def)

lemma notes_step:
  assumes "load f = Inr (JArr data)" and "first_with_id (u_id a) data = Some inc"
    and "fields_valid ul a" and "truthy (u_notes a)"
  shows "\<exists>f' data' inc'.
           update_incident ul f a now = (Inr (u_id a), f') \<and> load f' = Inr (JArr data') \<and>
           first_with_id (u_id a) data' = Some inc' \<and>
           inc_notes inc' = Some ((if truthy (inc_notes inc)
                                   then or_empty (inc_notes inc) @ [CHR 0x0A] else [])
                                  @ or_empty (u_notes a))"
proof -
  from first_with_id_Some[OF assms(2)] obtain pre post where
    d: "data = pre @ inc # post" and p: "\<forall>i \<in> set pre. inc_id i \<noteq> u_id a"
    and i: "inc_id inc = u_id a"
    by blast
  from update_record_notes[OF assms(3,4), where now = now and inc = inc] obtain inc' where
    r: "update_record ul a now inc = Inr inc'" and i': "inc_id inc' = inc_id inc"
    and n: "inc_notes inc' = Some ((if truthy (inc_notes inc)
                                   then or_empty (inc_notes inc) @ [CHR 0x0A] else [])
                                  @ or_empty (u_notes a))"
    by blast
  have "update_loop ul a now data =
      (case update_record ul a now inc of Inl e \<Rightarrow> Inl e | Inr inc' \<Rightarrow> Inr (pre @ inc' # post))"
    unfolding d by (rule update_loop_first[OF p i])
  then have "update_loop ul a now data = Inr (pre @ inc' # post)"
    by (simp only: r sum.case)
  with assms(1) have
    "update_incident ul f a now = (Inr (u_id a), save (JArr (pre @ inc' # post)))"
    by (simp add: update_incident_def iter_array)
  moreover have "load (save (JArr (pre @ inc' # post))) = Inr (JArr (pre @ inc' # post))"
    by (rule load_save)
  moreover have "first_with_id (u_id a) (pre @ inc' # post) = Some inc'"
    using p i i' by (intro first_with_id_split) simp_all
  ultimately show ?thesis using n by blast
qed

text \<open>
  Claim C3. Take a store with a record of the given id and two calls of \<^verbatim>\<open>update\<close>
  for this id that pass validation and each supply a non-empty note. Both calls succeed.
  After the first, the notes of the record are the old notes, a newline and the first
  note when the old notes were not empty, and the first note alone when they were empty
  or absent. After the second, they are the notes left by the first call, a newline and
  the second note. So for a record whose notes are empty at the start, the calls
  \<^verbatim>\<open>update(id, notes="a")\<close> and \<^verbatim>\<open>update(id, notes="b")\<close> leave the notes
  \<^verbatim>\<open>"a\nb"\<close>.
\<close>

theorem notes_appended_after_newline:
  assumes "load f = Inr (JArr data)" and "first_with_id (u_id a1) data = Some inc"
    and "u_id a2 = u_id a1"
    and "fields_valid ul a1" and "truthy (u_notes a1)"
    and "fields_valid ul a2" and "truthy (u_notes a2)"
  shows "\<exists>f1 d1 i1 f2 d2 i2.
           update_incident ul f a1 t1 = (Inr (u_id a1), f1) \<and> load f1 = Inr (JArr d1) \<and>
           first_with_id (u_id a1) d1 = Some i1 \<and>
           inc_notes i1 = Some ((if truthy (inc_notes inc)
                                 then or_empty (inc_notes inc) @ [CHR 0x0A] else [])
                                @ or_empty (u_notes a1)) \<and>
           update_incident ul f1 a2 t2 = (Inr (u_id a1), f2) \<and> load f2 = Inr (JArr d2) \<and>
           first_with_id (u_id a1) d2 = Some i2 \<and>
           inc_notes i2 = Some (or_empty (inc_notes i1) @ [CHR 0x0A] @ or_empty (u_notes a2)) \<and>
           (\<not> truthy (inc_notes inc) \<longrightarrow>
              inc_notes i2 = Some (or_empty (u_notes a1) @ [CHR 0x0A] @ or_empty (u_notes a2)))"
proof -
  from notes_step[OF assms(1,2,4,5), where now = t1] obtain f1 d1 i1 where
    s1: "update_incident ul f a1 t1 = (Inr (u_id a1), f1)" "load f1 = Inr (JArr d1)"
      "first_with_id (u_id a1) d1 = Some i1"
      "inc_notes i1 = Some ((if truthy (inc_notes inc)
                             then or_empty (inc_notes inc) @ [CHR 0x0A] else [])
                            @ or_empty (u_notes a1))"
    by blast
  from assms(5) have "or_empty (u_notes a1) \<noteq> []"
    by (cases "u_notes a1") (simp_all add: truthy_def or_empty_def)
  with s1(4) have t: "truthy (inc_notes i1)"
    by (simp add: truthy_def)
  from s1(3) assms(3) have "first_with_id (u_id a2) d1 = Some i1" by simp
  from notes_step[OF s1(2) this assms(6,7), where now = t2] assms(3) obtain f2 d2 i2 where
    s2: "update_incident ul f1 a2 t2 = (Inr (u_id a1), f2)" "load f2 = Inr (JArr d2)"
      "first_with_id (u_id a1) d2 = Some i2"
      "inc_notes i2 = Some ((if truthy (inc_notes i1)
                             then or_empty (inc_notes i1) @ [CHR 0x0A] else [])
                            @ or_empty (u_notes a2))"
    by auto
  from s2(4) t have n:
    "inc_notes i2 = Some (or_empty (inc_notes i1) @ [CHR 0x0A] @ or_empty (u_notes a2))"
    by simp
  have "\<not> truthy (inc_notes inc) \<longrightarrow>
          inc_notes i2 = Some (or_empty (u_notes a1) @ [CHR 0x0A] @ or_empty (u_notes a2))"
    using n s1(4) by (simp add: or_empty_def)
  with s1 s2(1-3) n show ?thesis by blast
qed

theorem notes_appended_after_newline_witness:
  "load two_incidents = Inr (JArr [phish, malware]) \<and>
   first_with_id (u_id (notes_only ''3f2b8c1e'' ''a'')) [phish, malware] = Some phish \<and>
   u_id (notes_only ''3f2b8c1e'' ''b'') = u_id (notes_only ''3f2b8c1e'' ''a'') \<and>
   fields_valid no_unicode (notes_only ''3f2b8c1e'' ''a'') \<and> truthy (u_notes (notes_only ''3f2b8c1e'' ''a'')) \<and>
   fields_valid no_unicode (notes_only ''3f2b8c1e'' ''b'') \<and> truthy (u_notes (notes_only ''3f2b8c1e'' ''b'')) \<and>
   \<not> truthy (inc_notes phish) \<and>
   (\<exists>f1 d1 f2 d2 i2.
      update_incident no_unicode two_incidents (notes_only ''3f2b8c1e'' ''a'') ''2024-05-03T10:00:00'' =
        (Inr ''3f2b8c1e'', f1) \<and> load f1 = Inr (JArr d1) \<and>
      update_incident no_unicode f1 (notes_only ''3f2b8c1e'' ''b'') ''2024-05-04T11:00:00'' =
        (Inr ''3f2b8c1e'', f2) \<and> load f2 = Inr (JArr d2) \<and>
      first_with_id ''3f2b8c1e'' d2 = Some i2 \<and>
      inc_notes i2 = Some [CHR ''a'', CHR 0x0A, CHR ''b'']) \<and>
   snd (update_incident no_unicode
          (snd (update_incident no_unicode two_incidents (notes_only ''3f2b8c1e'' ''a'')
                  ''2024-05-03T10:00:00''))
          (notes_only ''3f2b8c1e'' ''b'') ''2024-05-04T11:00:00'') =
     Parsed (JArr [phish\<lparr>inc_notes := Some [CHR ''a'', CHR 0x0A, CHR ''b''],
                        updated_at := Some ''2024-05-04T11:00:00Z''\<rparr>, malware])"
proof -
  let ?a = "notes_only ''3f2b8c1e'' ''a''" and ?b = "notes_only ''3f2b8c1e'' ''b''"
  have l: "load two_incidents = Inr (JArr [phish, malware])" by (simp add: load_def two_incidents_def)
  have f: "first_with_id (u_id ?a) [phish, malware] = Some phish" by code_simp
  have i: "u_id ?b = u_id ?a" by code_simp
  have va: "fields_valid no_unicode ?a" and na: "truthy (u_notes ?a)" by code_simp+
  have vb: "fields_valid no_unicode ?b" and nb: "truthy (u_notes ?b)" by code_simp+
  have e: "\<not> truthy (inc_notes phish)" by code_simp
  have v: "u_id ?a = ''3f2b8c1e''" "or_empty (u_notes ?a) = ''a''" "or_empty (u_notes ?b) = ''b''"
    by (simp_all add: notes_only_def or_empty_def)
  have r: "snd (update_incident no_unicode
          (snd (update_incident no_unicode two_incidents ?a ''2024-05-03T10:00:00'')) ?b
          ''2024-05-04T11:00:00'') =
     Parsed (JArr [phish\<lparr>inc_notes := Some [CHR ''a'', CHR 0x0A, CHR ''b''],
                        updated_at := Some ''2024-05-04T11:00:00Z''\<rparr>, malware])"
    by code_simp
  from notes_appended_after_newline[OF l f i va na vb nb,
      where ?t1.0 = "''2024-05-03T10:00:00''" and ?t2.0 = "''2024-05-04T11:00:00''"] e
  have "\<exists>f1 d1 f2 d2 i2.
      update_incident no_unicode two_incidents ?a ''2024-05-03T10:00:00'' = (Inr ''3f2b8c1e'', f1) \<and>
      load f1 = Inr (JArr d1) \<and>
      update_incident no_unicode f1 ?b ''2024-05-04T11:00:00'' = (Inr ''3f2b8c1e'', f2) \<and>
      load f2 = Inr (JArr d2) \<and> first_with_id ''3f2b8c1e'' d2 = Some i2 \<and>
      inc_notes i2 = Some [CHR ''a'', CHR 0x0A, CHR ''b'']"
    unfolding v by (elim exE conjE, intro exI conjI) (assumption | simp)+
  with l f i va na vb nb e r show ?thesis by blast
qed

end
